theory Spec2Isabelle
  imports Main "HOL-Library.AList"
begin

section \<open>The environment of the link checker\<close>

text \<open>
  The program of \<^verbatim>\<open>Week_1/link-checker.py\<close> talks to two libraries: \<^verbatim>\<open>requests\<close> for
  HTTP and \<^verbatim>\<open>BeautifulSoup\<close> for HTML. Neither is code of the repository, so the servers
  and the parser are parameters of the model, and both may raise.

  The exceptions that can travel through the program: those of the class
  \<^verbatim>\<open>requests.exceptions.RequestException\<close>, which both \<^verbatim>\<open>except\<close> clauses of the program
  name, and those outside it, which no clause of the program catches:
  \<^verbatim>\<open>urllib3.exceptions.LocationParseError\<close> (raised by \<^verbatim>\<open>requests.get\<close> for a URL such as
  \<^verbatim>\<open>http://a..b.example\<close>), \<^verbatim>\<open>bs4.exceptions.ParserRejectedMarkup\<close>, the \<^verbatim>\<open>KeyError\<close> of a
  subscript \<^verbatim>\<open>a_tag['href']\<close> on a tag without that attribute, and any other.
\<close>

datatype request_exception =
  Timeout | ConnectionError | SSLError | TooManyRedirects | InvalidURL | OtherRequestException

datatype py_exception =
  RequestException request_exception
| LocationParseError
| ParserRejectedMarkup
| KeyError string
| OtherException string

text \<open>\<^verbatim>\<open>except requests.exceptions.RequestException\<close> handles exactly the exceptions of that
  class.\<close>

fun is_request_exception :: "py_exception \<Rightarrow> bool" where
  "is_request_exception (RequestException e) = True"
| "is_request_exception LocationParseError = False"
| "is_request_exception ParserRejectedMarkup = False"
| "is_request_exception (KeyError k) = False"
| "is_request_exception (OtherException c) = False"

text \<open>A response carries \<^verbatim>\<open>response.status_code\<close>, \<^verbatim>\<open>response.text\<close> (the field
  \<open>body_text\<close>) and the target of its \<^verbatim>\<open>Location\<close> header, if it has one (as an absolute
  URL).\<close>

record response =
  status_code :: int
  body_text :: string
  location :: "string option"

text \<open>
  A request is a URL with the timeout passed for it. The network says what one HTTP
  exchange gives: a response, or an exception. It is a function of the requests sent so
  far and of the request at hand, so that the same URL may answer differently when asked
  again; every request sent is appended to a log that is passed through the program.
\<close>

type_synonym request = "string \<times> int"

type_synonym network = "request list \<Rightarrow> request \<Rightarrow> py_exception + response"

text \<open>
  \<^verbatim>\<open>requests.get(url, timeout=t)\<close> follows redirects (\<^verbatim>\<open>allow_redirects\<close> is true by
  default): a response with a \<^verbatim>\<open>Location\<close> header and one of the status codes 301, 302,
  303, 307, 308 is not returned; its target is requested instead, with the same timeout.
  After 30 redirects (\<^verbatim>\<open>max_redirects\<close>) a further one raises \<^verbatim>\<open>TooManyRedirects\<close>.
\<close>

definition get_redirect_target :: "response \<Rightarrow> string option" where
  "get_redirect_target r =
     (if status_code r \<in> {301, 302, 303, 307, 308} then location r else None)"

fun resolve_redirects ::
  "network \<Rightarrow> nat \<Rightarrow> string \<Rightarrow> int \<Rightarrow> request list \<Rightarrow> (py_exception + response) \<times> request list" where
  "resolve_redirects net 0 url timeout log =
     (case net log (url, timeout) of
        Inl e \<Rightarrow> (Inl e, log @ [(url, timeout)])
      | Inr r \<Rightarrow>
          (case get_redirect_target r of
             None \<Rightarrow> (Inr r, log @ [(url, timeout)])
           | Some target \<Rightarrow> (Inl (RequestException TooManyRedirects), log @ [(url, timeout)])))"
| "resolve_redirects net (Suc n) url timeout log =
     (case net log (url, timeout) of
        Inl e \<Rightarrow> (Inl e, log @ [(url, timeout)])
      | Inr r \<Rightarrow>
          (case get_redirect_target r of
             None \<Rightarrow> (Inr r, log @ [(url, timeout)])
           | Some target \<Rightarrow> resolve_redirects net n target timeout (log @ [(url, timeout)])))"

definition requests_get ::
  "network \<Rightarrow> string \<Rightarrow> int \<Rightarrow> request list \<Rightarrow> (py_exception + response) \<times> request list" where
  "requests_get net url timeout log = resolve_redirects net 30 url timeout log"

text \<open>
  A parsed document is the sequence of its tags in document order, each with its name and
  its attribute dictionary. \<^verbatim>\<open>soup.find_all('a', href=True)\<close> selects the tags of that
  name that carry an \<^verbatim>\<open>href\<close> attribute, in document order. The parser itself
  (\<^verbatim>\<open>BeautifulSoup(text, 'html.parser')\<close>) is a parameter \<open>html_parser\<close> of the functions
  below; it returns a document or raises.
\<close>

record tag =
  tag_name :: string
  attrs :: "string \<rightharpoonup> string"

type_synonym soup = "tag list"

type_synonym parser = "string \<Rightarrow> py_exception + soup"

definition find_all :: "soup \<Rightarrow> string \<Rightarrow> tag list" where
  "find_all sp name = filter (\<lambda>t. tag_name t = name \<and> attrs t ''href'' \<noteq> None) sp"

definition startswith :: "string \<Rightarrow> string \<Rightarrow> bool" where
  "startswith s p = (take (length p) s = p)"

section \<open>\<^verbatim>\<open>get_link_status\<close>\<close>

text \<open>
  \<^verbatim>\<open>
  try:
      response = requests.get(link, timeout=10)
      status_code = response.status_code
  except requests.exceptions.RequestException:
      status_code = 0  # Error code for failed requests
  return (link, status_code)
  \<close>
  An exception of another class leaves the function.
\<close>

definition get_link_status ::
  "network \<Rightarrow> string \<Rightarrow> request list \<Rightarrow> (py_exception + string \<times> int) \<times> request list" where
  "get_link_status net link log =
     (case requests_get net link 10 log of
        (Inr response, log') \<Rightarrow> (Inr (link, status_code response), log')
      | (Inl e, log') \<Rightarrow>
          if is_request_exception e then (Inr (link, 0), log') else (Inl e, log'))"

section \<open>\<^verbatim>\<open>extract_http_links\<close>\<close>

text \<open>The loop over the anchors (\<^verbatim>\<open>for a_tag in soup.find_all('a', href=True)\<close>), with the
  list \<^verbatim>\<open>links\<close> it appends to.\<close>

fun collect_links :: "tag list \<Rightarrow> string list \<Rightarrow> py_exception + string list" where
  "collect_links [] links = Inr links"
| "collect_links (a_tag # rest) links =
     (case attrs a_tag ''href'' of
        None \<Rightarrow> Inl (KeyError ''href'')
      | Some href \<Rightarrow>
          if startswith href ''http'' then collect_links rest (links @ [href])
          else collect_links rest links)"

text \<open>The loop over the links (\<^verbatim>\<open>for link in links\<close>), with the list \<^verbatim>\<open>status_links\<close> it
  appends to. An exception that leaves \<^const>\<open>get_link_status\<close> leaves the loop.\<close>

fun check_links ::
  "network \<Rightarrow> string list \<Rightarrow> (string \<times> int) list \<Rightarrow> request list
     \<Rightarrow> (py_exception + (string \<times> int) list) \<times> request list" where
  "check_links net [] status_links log = (Inr status_links, log)"
| "check_links net (link # rest) status_links log =
     (case get_link_status net link log of
        (Inl e, log') \<Rightarrow> (Inl e, log')
      | (Inr r, log') \<Rightarrow> check_links net rest (status_links @ [r]) log')"

text \<open>
  The dictionary \<^verbatim>\<open>result\<close> keeps its keys in the order of their first insertion, and an
  assignment to a key that is present replaces the value in place: an association list
  updated with \<^const>\<open>AList.update\<close>.
\<close>

type_synonym report = "(string \<times> (string \<times> int) list) list"

text \<open>The body of the \<^verbatim>\<open>try\<close> block for one seed URL, up to \<^verbatim>\<open>result[url] = status_links\<close>;
  an exception raised in it ends it.\<close>

definition try_block ::
  "network \<Rightarrow> parser \<Rightarrow> string \<Rightarrow> report \<Rightarrow> request list
     \<Rightarrow> (py_exception + report) \<times> request list" where
  "try_block net html_parser url result log =
     (case requests_get net url 10 log of
        (Inl e, log1) \<Rightarrow> (Inl e, log1)
      | (Inr response, log1) \<Rightarrow>
          (case html_parser (body_text response) of
             Inl e \<Rightarrow> (Inl e, log1)
           | Inr sp \<Rightarrow>
               (case collect_links (find_all sp ''a'') [] of
                  Inl e \<Rightarrow> (Inl e, log1)
                | Inr links \<Rightarrow>
                    (case check_links net links [] log1 of
                       (Inl e, log2) \<Rightarrow> (Inl e, log2)
                     | (Inr status_links, log2) \<Rightarrow>
                         (Inr (AList.update url status_links result), log2)))))"

text \<open>The loop over the seeds. \<^verbatim>\<open>except requests.exceptions.RequestException\<close> stores the
  empty list; an exception of another class leaves the function.\<close>

fun extract_http_links_loop ::
  "network \<Rightarrow> parser \<Rightarrow> string list \<Rightarrow> report \<Rightarrow> request list
     \<Rightarrow> (py_exception + report) \<times> request list" where
  "extract_http_links_loop net html_parser [] result log = (Inr result, log)"
| "extract_http_links_loop net html_parser (url # urls) result log =
     (case try_block net html_parser url result log of
        (Inr result', log') \<Rightarrow> extract_http_links_loop net html_parser urls result' log'
      | (Inl e, log') \<Rightarrow>
          if is_request_exception e
          then extract_http_links_loop net html_parser urls (AList.update url [] result) log'
          else (Inl e, log'))"

definition extract_http_links ::
  "network \<Rightarrow> parser \<Rightarrow> string list \<Rightarrow> request list
     \<Rightarrow> (py_exception + report) \<times> request list" where
  "extract_http_links net html_parser urls log =
     extract_http_links_loop net html_parser urls [] log"

section \<open>\<^verbatim>\<open>save_links_to_markdown\<close>\<close>

text \<open>\<^verbatim>\<open>str\<close> of an integer, as the f-string \<^verbatim>\<open>{status}\<close> renders it.\<close>

function str_nat :: "nat \<Rightarrow> string" where
  "str_nat n =
     (if n < 10 then [char_of (48 + n)] else str_nat (n div 10) @ [char_of (48 + n mod 10)])"
  by pat_completeness auto
termination
  by (relation "measure id") auto

definition str_int :: "int \<Rightarrow> string" where
  "str_int i = (if i < 0 then CHR ''-'' # str_nat (nat (- i)) else str_nat (nat i))"

definition newline :: string where
  "newline = [CHR 0x0A]"

definition header :: string where
  "header =
     ''# Link Checker Results'' @ newline @ newline @
     ''| Source URL | Link | Status Code |'' @ newline @
     ''|------------|------|------------|'' @ newline"

definition link_row :: "string \<Rightarrow> string \<times> int \<Rightarrow> string" where
  "link_row url ls =
     (case ls of (link, status) \<Rightarrow>
        ''| '' @ url @ '' | '' @ link @ '' | '' @ str_int status @ '' |'' @ newline)"

definition placeholder_row :: "string \<Rightarrow> string" where
  "placeholder_row url =
     ''| '' @ url @ '' | No links found or URL unreachable | - |'' @ newline"

text \<open>The rows written for one seed: \<^verbatim>\<open>links = links_dict.get(url, [])\<close>, then one row
  per link, or the placeholder row when \<^verbatim>\<open>links\<close> is empty.\<close>

definition seed_rows :: "report \<Rightarrow> string \<Rightarrow> string" where
  "seed_rows links_dict url =
     (let links = (case map_of links_dict url of None \<Rightarrow> [] | Some l \<Rightarrow> l)
      in if links \<noteq> [] then concat (map (link_row url) links) else placeholder_row url)"

fun write_rows :: "report \<Rightarrow> string list \<Rightarrow> string \<Rightarrow> string" where
  "write_rows links_dict [] f = f"
| "write_rows links_dict (url # urls) f = write_rows links_dict urls (f @ seed_rows links_dict url)"

text \<open>
  The file system is a map from file names to contents; \<^verbatim>\<open>open(filename, 'w')\<close> replaces the
  content of the file. The creation of the directory and the errors of the operating system
  are outside the model. An exception that leaves \<^const>\<open>extract_http_links\<close> leaves the
  function before anything is written.
\<close>

definition save_links_to_markdown ::
  "network \<Rightarrow> parser \<Rightarrow> string list \<Rightarrow> string \<Rightarrow> (string \<rightharpoonup> string) \<Rightarrow> request list
     \<Rightarrow> (py_exception + (string \<rightharpoonup> string)) \<times> request list" where
  "save_links_to_markdown net html_parser urls filename files log =
     (case extract_http_links net html_parser urls log of
        (Inl e, log') \<Rightarrow> (Inl e, log')
      | (Inr links_dict, log') \<Rightarrow>
          (Inr (files(filename \<mapsto> write_rows links_dict urls header)), log'))"

section \<open>Notions used in the statements\<close>

text \<open>The \<^verbatim>\<open>href\<close> values of the anchors of a document, in document order, and those of
  them that start with \<^verbatim>\<open>http\<close>.\<close>

definition anchor_hrefs :: "soup \<Rightarrow> string list" where
  "anchor_hrefs sp =
     List.map_filter (\<lambda>t. if tag_name t = ''a'' then attrs t ''href'' else None) sp"

definition http_links :: "soup \<Rightarrow> string list" where
  "http_links sp = filter (\<lambda>href. startswith href ''http'') (anchor_hrefs sp)"

text \<open>What one round of the loop over the seeds assigns to \<^verbatim>\<open>result[url]\<close>, or the exception
  that leaves it, with the log after it.\<close>

definition page_entry ::
  "network \<Rightarrow> parser \<Rightarrow> string \<Rightarrow> request list
     \<Rightarrow> (py_exception + (string \<times> int) list) \<times> request list" where
  "page_entry net html_parser url log =
     (case requests_get net url 10 log of
        (Inl e, log1) \<Rightarrow> if is_request_exception e then (Inr [], log1) else (Inl e, log1)
      | (Inr response, log1) \<Rightarrow>
          (case html_parser (body_text response) of
             Inl e \<Rightarrow> if is_request_exception e then (Inr [], log1) else (Inl e, log1)
           | Inr sp \<Rightarrow> check_links net (http_links sp) [] log1))"

definition insert_key :: "'a list \<Rightarrow> 'a \<Rightarrow> 'a list" where
  "insert_key ks k = (if k \<in> set ks then ks else ks @ [k])"

text \<open>The links that the loop over the seeds stores for the answer to the request for a
  seed: none when \<^verbatim>\<open>requests.get\<close> or the parser raised, the anchors that start with
  \<^verbatim>\<open>http\<close> otherwise.\<close>

definition links_of_answer :: "parser \<Rightarrow> py_exception + response \<Rightarrow> string list" where
  "links_of_answer html_parser answer =
     (case answer of
        Inl e \<Rightarrow> []
      | Inr response \<Rightarrow>
          (case html_parser (body_text response) of
             Inl e \<Rightarrow> []
           | Inr sp \<Rightarrow> filter (\<lambda>href. startswith href ''http'') (anchor_hrefs sp)))"

text \<open>An entry \<open>(url, status_links)\<close> of the report is recorded in a log when the log holds
  a request for \<open>url\<close> such that the links of the entry are those of the answer that
  \<^verbatim>\<open>requests.get\<close> gave to it.\<close>

definition recorded ::
  "network \<Rightarrow> parser \<Rightarrow> request list \<Rightarrow> string \<Rightarrow> (string \<times> int) list \<Rightarrow> bool" where
  "recorded net html_parser log url status_links =
     (\<exists>before after. log = before @ (url, 10) # after \<and>
        map fst status_links =
          links_of_answer html_parser (fst (requests_get net url 10 before)))"


section \<open>Example networks and documents\<close>

definition anchor :: "string \<Rightarrow> tag" where
  "anchor href = \<lparr>tag_name = ''a'', attrs = [''href'' \<mapsto> href]\<rparr>"

definition answer :: "int \<Rightarrow> string \<Rightarrow> response" where
  "answer status txt = \<lparr>status_code = status, body_text = txt, location = None\<rparr>"

definition net_timeout :: network where
  "net_timeout log req = Inl (RequestException Timeout)"

definition net_connection_error :: network where
  "net_connection_error log req = Inl (RequestException ConnectionError)"

definition net_not_found :: network where
  "net_not_found log req = Inr (answer 404 ''Not Found'')"

definition page_body :: string where
  "page_body =
     ''<a href=https://x.example>x</a><a href=/relative>r</a><a href=https://y.example>y</a>''"

definition repeated_body :: string where
  "repeated_body =
     ''<a href=https://x.example>1</a><a href=https://y.example>2</a><a href=https://x.example>3</a>''"

definition relative_body :: string where
  "relative_body = ''<p><a href=/relative>r</a><a name=top>t</a></p>''"

definition example_parser :: parser where
  "example_parser txt =
     (if txt = page_body then
        Inr [anchor ''https://x.example'', anchor ''/relative'', anchor ''https://y.example'']
      else if txt = repeated_body then
        Inr [anchor ''https://x.example'', anchor ''https://y.example'', anchor ''https://x.example'']
      else if txt = relative_body then
        Inr [\<lparr>tag_name = ''p'', attrs = Map.empty\<rparr>, anchor ''/relative'',
             \<lparr>tag_name = ''a'', attrs = [''name'' \<mapsto> ''top'']\<rparr>]
      else Inr [])"

text \<open>The network of the example scenario: the seed page answers 200 with \<open>page_body\<close>,
  \<^verbatim>\<open>x.example\<close> answers 200, every other request raises the given exception.\<close>

definition scenario_net :: "py_exception \<Rightarrow> network" where
  "scenario_net failure log req =
     (if fst req = ''https://a.example/page'' then Inr (answer 200 page_body)
      else if fst req = ''https://x.example'' then Inr (answer 200 [])
      else Inl failure)"

definition net_repeated :: network where
  "net_repeated log req =
     (if fst req = ''https://a.example/page'' then Inr (answer 200 repeated_body)
      else if fst req = ''https://x.example'' then Inr (answer 500 [])
      else Inl (RequestException SSLError))"

definition net_no_links :: network where
  "net_no_links log req = Inr (answer 200 relative_body)"

text \<open>A server that has moved a page: the old address answers 301 with the new one as
  \<^verbatim>\<open>Location\<close>, every other address answers 200.\<close>

definition net_moved :: network where
  "net_moved log req =
     (if fst req = ''https://x.example/old''
      then Inr \<lparr>status_code = 301, body_text = [], location = Some ''https://x.example/new''\<rparr>
      else Inr (answer 200 []))"

text \<open>A server that redirects every address to itself.\<close>

definition net_redirect_loop :: network where
  "net_redirect_loop log req =
     Inr \<lparr>status_code = 302, body_text = [], location = Some (fst req)\<rparr>"

text \<open>A network on which \<^verbatim>\<open>requests.get\<close> raises \<^verbatim>\<open>LocationParseError\<close> for the URL
  \<^verbatim>\<open>http://a..b.example\<close>, whose host has an empty label; every other address answers
  200.\<close>

definition net_bad_url :: network where
  "net_bad_url log req =
     (if fst req = ''http://a..b.example'' then Inl LocationParseError
      else Inr (answer 200 []))"

definition mixed_soup :: soup where
  "mixed_soup =
     [anchor ''https://x.example'', anchor ''/relative'', anchor ''mailto:a@b.example'',
      \<lparr>tag_name = ''link'', attrs = [''href'' \<mapsto> ''https://style.example'']\<rparr>,
      anchor ''#top'', anchor ''javascript:void(0)'', anchor ''http://z.example'',
      anchor ''https://x.example'']"

definition other_soup :: soup where
  "other_soup =
     [anchor ''/relative'', anchor ''mailto:a@b.example'', anchor ''#top'',
      \<lparr>tag_name = ''a'', attrs = [''name'' \<mapsto> ''top'']\<rparr>, anchor ''javascript:void(0)'']"

section \<open>Lemmas about \<^verbatim>\<open>requests.get\<close>\<close>

lemma resolve_redirects_error:
  "net log (url, timeout) = Inl e \<Longrightarrow>
     resolve_redirects net n url timeout log = (Inl e, log @ [(url, timeout)])"
  by (cases n) simp_all

lemma resolve_redirects_final:
  "net log (url, timeout) = Inr r \<Longrightarrow> get_redirect_target r = None \<Longrightarrow>
     resolve_redirects net n url timeout log = (Inr r, log @ [(url, timeout)])"
  by (cases n) simp_all

lemma requests_get_error:
  "net log (url, timeout) = Inl e \<Longrightarrow>
     requests_get net url timeout log = (Inl e, log @ [(url, timeout)])"
  by (simp add: requests_get_def resolve_redirects_error)

lemma requests_get_final:
  "net log (url, timeout) = Inr r \<Longrightarrow> get_redirect_target r = None \<Longrightarrow>
     requests_get net url timeout log = (Inr r, log @ [(url, timeout)])"
  by (simp add: requests_get_def resolve_redirects_final)

lemma requests_get_redirect:
  assumes "net log (url, timeout) = Inr r" and "get_redirect_target r = Some target"
  shows "requests_get net url timeout log =
           resolve_redirects net 29 target timeout (log @ [(url, timeout)])"
proof -
  have "resolve_redirects net (Suc 29) url timeout log =
      resolve_redirects net 29 target timeout (log @ [(url, timeout)])"
    using assms by (simp only: resolve_redirects.simps) simp
  moreover have "Suc 29 = 30" by simp
  ultimately show ?thesis unfolding requests_get_def by (simp only:)
qed

lemma answer_no_redirect: "get_redirect_target (answer status txt) = None"
  by (simp add: get_redirect_target_def answer_def)

lemma resolve_redirects_log:
  "\<exists>hops. snd (resolve_redirects net n url timeout log) = log @ (url, timeout) # hops"
proof (induction n arbitrary: url log)
  case 0
  show ?case by (simp split: sum.splits option.splits)
next
  case (Suc n)
  show ?case
  proof (cases "net log (url, timeout)")
    case (Inl e)
    then show ?thesis by simp
  next
    case (Inr r)
    show ?thesis
    proof (cases "get_redirect_target r")
      case None
      with Inr show ?thesis by simp
    next
      case (Some target)
      from Suc.IH [of target "log @ [(url, timeout)]"] obtain hops where
        "snd (resolve_redirects net n target timeout (log @ [(url, timeout)])) =
           (log @ [(url, timeout)]) @ (target, timeout) # hops"
        by blast
      with Inr Some show ?thesis by simp
    qed
  qed
qed

lemma requests_get_log:
  "\<exists>hops. snd (requests_get net url timeout log) = log @ (url, timeout) # hops"
  unfolding requests_get_def by (rule resolve_redirects_log)



section \<open>Lemmas about the loops\<close>

lemma get_link_status_log:
  "snd (get_link_status net link log) = snd (requests_get net link 10 log)"
  by (simp add: get_link_status_def split: prod.splits sum.splits)

lemma get_link_status_Inr:
  "fst (get_link_status net link log) = Inr p \<Longrightarrow> fst p = link"
  by (auto simp add: get_link_status_def split: prod.splits sum.splits if_splits)

lemma get_link_status_Inl:
  "fst (get_link_status net link log) = Inl e \<longleftrightarrow>
     fst (requests_get net link 10 log) = Inl e \<and> \<not> is_request_exception e"
  by (auto simp add: get_link_status_def split: prod.splits sum.splits if_splits)

lemma find_all_Cons:
  "find_all (t # sp) name =
     (if tag_name t = name \<and> attrs t ''href'' \<noteq> None then t # find_all sp name
      else find_all sp name)"
  by (simp add: find_all_def)

lemma http_links_Cons:
  "http_links (t # sp) =
     (case (if tag_name t = ''a'' then attrs t ''href'' else None) of
        None \<Rightarrow> http_links sp
      | Some href \<Rightarrow> if startswith href ''http'' then href # http_links sp else http_links sp)"
  by (simp add: http_links_def anchor_hrefs_def split: option.splits)

lemma collect_links_find_all:
  "collect_links (find_all sp ''a'') links = Inr (links @ http_links sp)"
proof (induction sp arbitrary: links)
  case Nil
  show ?case by (simp add: find_all_def http_links_def anchor_hrefs_def)
next
  case (Cons t sp)
  show ?case
    by (cases "attrs t ''href''") (simp_all add: find_all_Cons http_links_Cons Cons.IH)
qed

lemma check_links_step:
  "check_links net (link # rest) status_links log =
     (case fst (get_link_status net link log) of
        Inl e \<Rightarrow> (Inl e, snd (get_link_status net link log))
      | Inr r \<Rightarrow> check_links net rest (status_links @ [r]) (snd (get_link_status net link log)))"
  by (simp split: prod.splits sum.splits)

lemma check_links_links:
  "fst (check_links net links status_links log) = Inr checked \<Longrightarrow>
     map fst checked = map fst status_links @ links"
proof (induction links arbitrary: status_links log)
  case Nil
  then show ?case by simp
next
  case (Cons link rest)
  show ?case
  proof (cases "fst (get_link_status net link log)")
    case (Inl e)
    with Cons.prems show ?thesis by (simp only: check_links_step) simp
  next
    case (Inr r)
    with Cons.prems have
      "fst (check_links net rest (status_links @ [r]) (snd (get_link_status net link log))) =
         Inr checked"
      by (simp only: check_links_step) simp
    from Cons.IH [OF this] get_link_status_Inr [OF Inr] show ?thesis by simp
  qed
qed

lemma check_links_log:
  "\<exists>ext. snd (check_links net links status_links log) = log @ ext"
proof (induction links arbitrary: status_links log)
  case Nil
  show ?case by simp
next
  case (Cons link rest)
  obtain hops where hops: "snd (get_link_status net link log) = log @ (link, 10) # hops"
    using requests_get_log [of net link 10 log] by (auto simp add: get_link_status_log)
  show ?case
  proof (cases "fst (get_link_status net link log)")
    case (Inl e)
    with hops show ?thesis by (simp only: check_links_step) simp
  next
    case (Inr r)
    from Cons.IH [of "status_links @ [r]" "snd (get_link_status net link log)"]
    obtain ext where
      "snd (check_links net rest (status_links @ [r]) (snd (get_link_status net link log))) =
         snd (get_link_status net link log) @ ext"
      by blast
    with Inr hops show ?thesis by (simp only: check_links_step) simp
  qed
qed

lemma check_links_raises:
  "fst (check_links net links status_links log) = Inl e \<Longrightarrow> \<not> is_request_exception e"
proof (induction links arbitrary: status_links log)
  case Nil
  then show ?case by simp
next
  case (Cons link rest)
  show ?case
  proof (cases "fst (get_link_status net link log)")
    case (Inl e')
    with Cons.prems have "e' = e" by (simp only: check_links_step) simp
    with Inl show ?thesis by (simp add: get_link_status_Inl)
  next
    case (Inr r)
    with Cons.prems have
      "fst (check_links net rest (status_links @ [r]) (snd (get_link_status net link log))) =
         Inl e"
      by (simp only: check_links_step) simp
    from Cons.IH [OF this] show ?thesis .
  qed
qed



lemma loop_step:
  "extract_http_links_loop net html_parser (url # urls) result log =
     (case fst (page_entry net html_parser url log) of
        Inl e \<Rightarrow> (Inl e, snd (page_entry net html_parser url log))
      | Inr status_links \<Rightarrow>
          extract_http_links_loop net html_parser urls (AList.update url status_links result)
            (snd (page_entry net html_parser url log)))"
proof (cases "requests_get net url 10 log")
  case (Pair a log1)
  show ?thesis
  proof (cases a)
    case (Inl e)
    with Pair show ?thesis by (simp add: try_block_def page_entry_def)
  next
    case (Inr response)
    show ?thesis
    proof (cases "html_parser (body_text response)")
      case (Inl e)
      with Pair Inr show ?thesis by (simp add: try_block_def page_entry_def)
    next
      case parsed: (Inr sp)
      obtain c log2 where c: "check_links net (http_links sp) [] log1 = (c, log2)"
        by (cases "check_links net (http_links sp) [] log1")
      show ?thesis
      proof (cases c)
        case (Inl e)
        with c have "fst (check_links net (http_links sp) [] log1) = Inl e" by simp
        then have "\<not> is_request_exception e" by (rule check_links_raises)
        with Pair Inr parsed c Inl show ?thesis
          by (simp add: try_block_def page_entry_def collect_links_find_all)
      next
        case checked: (Inr status_links)
        with Pair Inr parsed c show ?thesis
          by (simp add: try_block_def page_entry_def collect_links_find_all)
      qed
    qed
  qed
qed

declare extract_http_links_loop.simps(2) [simp del]


lemma page_entry_log:
  "\<exists>ext. snd (page_entry net html_parser url log) = log @ (url, 10) # ext"
proof -
  obtain hops where hops: "snd (requests_get net url 10 log) = log @ (url, 10) # hops"
    using requests_get_log by blast
  show ?thesis
  proof (cases "requests_get net url 10 log")
    case (Pair a log1)
    with hops have log1: "log1 = log @ (url, 10) # hops" by simp
    show ?thesis
    proof (cases a)
      case (Inl e)
      with Pair log1 show ?thesis by (simp add: page_entry_def)
    next
      case (Inr response)
      show ?thesis
      proof (cases "html_parser (body_text response)")
        case (Inl e)
        with Pair Inr log1 show ?thesis by (simp add: page_entry_def)
      next
        case parsed: (Inr sp)
        obtain ext where "snd (check_links net (http_links sp) [] log1) = log1 @ ext"
          using check_links_log by blast
        with Pair Inr parsed log1 show ?thesis by (simp add: page_entry_def)
      qed
    qed
  qed
qed

lemma page_entry_links:
  "fst (page_entry net html_parser url log) = Inr status_links \<Longrightarrow>
     map fst status_links = links_of_answer html_parser (fst (requests_get net url 10 log))"
proof (cases "requests_get net url 10 log")
  case (Pair a log1)
  assume entry: "fst (page_entry net html_parser url log) = Inr status_links"
  show ?thesis
  proof (cases a)
    case (Inl e)
    with Pair entry show ?thesis
      by (auto simp add: page_entry_def links_of_answer_def split: if_splits)
  next
    case (Inr response)
    show ?thesis
    proof (cases "html_parser (body_text response)")
      case (Inl e)
      with Pair Inr entry show ?thesis
        by (auto simp add: page_entry_def links_of_answer_def split: if_splits)
    next
      case parsed: (Inr sp)
      with Pair Inr entry have
        "fst (check_links net (http_links sp) [] log1) = Inr status_links"
        by (simp add: page_entry_def)
      from check_links_links [OF this] Pair Inr parsed show ?thesis
        by (simp add: links_of_answer_def http_links_def)
    qed
  qed
qed



lemma loop_Cons_Inr:
  assumes "fst (extract_http_links_loop net html_parser (url # urls) result log) = Inr final"
  obtains status_links where
    "fst (page_entry net html_parser url log) = Inr status_links"
    "extract_http_links_loop net html_parser (url # urls) result log =
       extract_http_links_loop net html_parser urls (AList.update url status_links result)
         (snd (page_entry net html_parser url log))"
proof (cases "fst (page_entry net html_parser url log)")
  case (Inl e)
  with assms show ?thesis by (simp only: loop_step) simp
next
  case (Inr status_links)
  then have "extract_http_links_loop net html_parser (url # urls) result log =
       extract_http_links_loop net html_parser urls (AList.update url status_links result)
         (snd (page_entry net html_parser url log))"
    by (simp only: loop_step) simp
  with Inr that show ?thesis by blast
qed

lemma loop_keys:
  "fst (extract_http_links_loop net html_parser urls result log) = Inr final \<Longrightarrow>
     map fst final = foldl insert_key (map fst result) urls"
proof (induction urls arbitrary: result log)
  case Nil
  then show ?case by simp
next
  case (Cons url urls)
  from Cons.prems obtain status_links where
    "extract_http_links_loop net html_parser (url # urls) result log =
       extract_http_links_loop net html_parser urls (AList.update url status_links result)
         (snd (page_entry net html_parser url log))"
    by (rule loop_Cons_Inr)
  with Cons.prems have
    "fst (extract_http_links_loop net html_parser urls (AList.update url status_links result)
       (snd (page_entry net html_parser url log))) = Inr final"
    by simp
  from Cons.IH [OF this] show ?case
    by (simp add: update_keys insert_key_def)
qed

lemma foldl_insert_key: "foldl insert_key [] urls = rev (remdups (rev urls))"
proof (induction urls rule: rev_induct)
  case Nil
  show ?case by simp
next
  case (snoc u urls)
  then show ?case by (simp add: insert_key_def)
qed




lemma recorded_mono:
  "recorded net html_parser log url sl \<Longrightarrow> recorded net html_parser (log @ ext) url sl"
  unfolding recorded_def by fastforce

lemma set_update_subset: "set (AList.update k v al) \<subseteq> insert (k, v) (set al)"
  by (induction al) auto

lemma loop_recorded:
  "fst (extract_http_links_loop net html_parser urls result log) = Inr final \<Longrightarrow>
   \<forall>(u, sl)\<in>set result. recorded net html_parser log u sl \<Longrightarrow>
   \<forall>(u, sl)\<in>set final.
      recorded net html_parser (snd (extract_http_links_loop net html_parser urls result log)) u sl"
proof (induction urls arbitrary: result log)
  case Nil
  then show ?case by simp
next
  case (Cons url urls)
  let ?log = "snd (page_entry net html_parser url log)"
  from Cons.prems(1) obtain status_links where
    entry: "fst (page_entry net html_parser url log) = Inr status_links" and
    step: "extract_http_links_loop net html_parser (url # urls) result log =
       extract_http_links_loop net html_parser urls (AList.update url status_links result) ?log"
    by (rule loop_Cons_Inr)
  obtain ext where ext: "?log = log @ (url, 10) # ext"
    using page_entry_log by blast
  have new: "recorded net html_parser ?log url status_links"
    unfolding recorded_def using ext page_entry_links [OF entry] by blast
  have old: "\<forall>(u, sl)\<in>set result. recorded net html_parser ?log u sl"
    using Cons.prems(2) recorded_mono [of net html_parser log _ _ "(url, 10) # ext"]
    unfolding ext by blast
  have inv: "\<forall>(u, sl)\<in>set (AList.update url status_links result).
      recorded net html_parser ?log u sl"
    using new old set_update_subset [of url status_links result] by blast
  from Cons.prems(1) step have
    "fst (extract_http_links_loop net html_parser urls (AList.update url status_links result) ?log)
       = Inr final"
    by simp
  from Cons.IH [OF this inv] show ?case
    by (simp only: step)
qed

section \<open>Evaluation of the examples\<close>

lemma requests_get_unfold:
  "requests_get net url timeout log =
     (case net log (url, timeout) of
        Inl e \<Rightarrow> (Inl e, log @ [(url, timeout)])
      | Inr r \<Rightarrow>
          (case get_redirect_target r of
             None \<Rightarrow> (Inr r, log @ [(url, timeout)])
           | Some target \<Rightarrow> resolve_redirects net 29 target timeout (log @ [(url, timeout)])))"
  by (simp add: requests_get_error requests_get_final requests_get_redirect
      split: sum.splits option.splits)

lemmas example_defs =
  net_timeout_def net_connection_error_def net_not_found_def scenario_net_def net_repeated_def
  net_no_links_def net_bad_url_def example_parser_def page_body_def repeated_body_def
  relative_body_def anchor_def answer_def mixed_soup_def other_soup_def

lemmas program_defs =
  get_link_status_def requests_get_unfold get_redirect_target_def extract_http_links_def
  loop_step page_entry_def http_links_def anchor_hrefs_def startswith_def

lemma run_scenario:
  "extract_http_links (scenario_net (RequestException failure)) example_parser
     [''https://a.example/page''] [] =
     (Inr [(''https://a.example/page'', [(''https://x.example'', 200), (''https://y.example'', 0)])],
      [(''https://a.example/page'', 10), (''https://x.example'', 10), (''https://y.example'', 10)])"
  by (simp add: program_defs example_defs)

lemma run_net_repeated:
  "extract_http_links net_repeated example_parser [''https://a.example/page''] [] =
     (Inr [(''https://a.example/page'',
            [(''https://x.example'', 500), (''https://y.example'', 0), (''https://x.example'', 500)])],
      [(''https://a.example/page'', 10), (''https://x.example'', 10), (''https://y.example'', 10),
       (''https://x.example'', 10)])"
  by (simp add: program_defs example_defs)

lemma redirect_loop_raises:
  "fst (resolve_redirects net_redirect_loop n url timeout log) =
     Inl (RequestException TooManyRedirects)"
  by (induction n arbitrary: log)
    (simp_all add: net_redirect_loop_def get_redirect_target_def)

lemma moved:
  "get_link_status net_moved ''https://x.example/old'' [] =
     (Inr (''https://x.example/old'', 200),
      [(''https://x.example/old'', 10), (''https://x.example/new'', 10)])"
proof -
  have "resolve_redirects net_moved 29 ''https://x.example/new'' 10 [(''https://x.example/old'', 10)] =
      (Inr (answer 200 []), [(''https://x.example/old'', 10), (''https://x.example/new'', 10)])"
    by (rule resolve_redirects_final [THEN trans])
      (simp_all add: net_moved_def answer_no_redirect)
  then show ?thesis
    by (simp add: get_link_status_def requests_get_unfold net_moved_def get_redirect_target_def
        answer_def)
qed

section \<open>Failed checks\<close>

text \<open>C1, counterexample: the outcome that \<^const>\<open>get_link_status\<close> records for a request
  that timed out is the integer 0, and it is the same pair as for a request that could not
  connect.\<close>

theorem sentinel_zero_counterexample:
  "fst (get_link_status net_timeout ''https://y.example'' []) = Inr (''https://y.example'', 0) \<and>
   fst (get_link_status net_timeout ''https://y.example'' []) =
     fst (get_link_status net_connection_error ''https://y.example'' [])"
  by (simp add: program_defs example_defs)

text \<open>C1, amended: when the request for a link raises a \<^verbatim>\<open>RequestException\<close>, of whatever
  kind, the outcome recorded is the integer 0, which lies outside the range 100 to 599 of
  the HTTP status codes.\<close>

theorem failed_check_records_zero:
  assumes "fst (requests_get net link 10 log) = Inl (RequestException e)"
  shows "fst (get_link_status net link log) = Inr (link, 0) \<and>
         fst (get_link_status net link log) \<notin> (\<lambda>status. Inr (link, status)) ` {100..599}"
  using assms by (auto simp add: get_link_status_def split: prod.splits)

theorem failed_check_records_zero_witness:
  "fst (requests_get net_timeout ''https://y.example'' 10 []) = Inl (RequestException Timeout) \<and>
   fst (get_link_status net_timeout ''https://y.example'' []) = Inr (''https://y.example'', 0) \<and>
   fst (get_link_status net_timeout ''https://y.example'' []) \<notin>
     (\<lambda>status. Inr (''https://y.example'', status)) ` {100..599}"
proof -
  have h: "fst (requests_get net_timeout ''https://y.example'' 10 []) =
      Inl (RequestException Timeout)"
    by (simp add: requests_get_unfold net_timeout_def)
  from failed_check_records_zero [of net_timeout "''https://y.example''" "[]" Timeout] h
  show ?thesis by blast
qed

section \<open>One entry per seed\<close>

text \<open>C2, counterexample: two equal seeds leave one entry in the report.\<close>

theorem duplicate_seeds_counterexample:
  "fst (extract_http_links net_no_links example_parser
          [''https://a.example/page'', ''https://a.example/page''] []) =
     Inr [(''https://a.example/page'', [])]"
  by (simp add: program_defs example_defs)

text \<open>C2, amended: whenever the run returns a report, the report has one entry per distinct
  seed, in the order of the first occurrences; when the seeds are pairwise distinct, it has
  as many entries as there are seeds, in the order of the seeds.\<close>

theorem report_one_entry_per_distinct_seed:
  assumes "fst (extract_http_links net html_parser urls log) = Inr final"
  shows "map fst final = rev (remdups (rev urls)) \<and>
         (distinct urls \<longrightarrow> map fst final = urls \<and> length final = length urls)"
proof -
  have keys: "map fst final = rev (remdups (rev urls))"
    using assms loop_keys [of net html_parser urls "[]" log final]
    unfolding extract_http_links_def by (simp add: foldl_insert_key)
  have "map fst final = urls \<and> length final = length urls" if "distinct urls"
  proof -
    from that have "map fst final = urls" by (simp add: keys distinct_remdups_id)
    moreover have "length (map fst final) = length final" by simp
    ultimately show ?thesis by simp
  qed
  with keys show ?thesis by blast
qed

lemma run_two_seeds:
  "extract_http_links (scenario_net (RequestException Timeout)) example_parser
     [''https://a.example/page'', ''https://b.example''] [] =
     (Inr [(''https://a.example/page'', [(''https://x.example'', 200), (''https://y.example'', 0)]),
           (''https://b.example'', [])],
      [(''https://a.example/page'', 10), (''https://x.example'', 10), (''https://y.example'', 10),
       (''https://b.example'', 10)])"
  by (simp add: program_defs example_defs)

theorem report_one_entry_per_distinct_seed_witness:
  "fst (extract_http_links (scenario_net (RequestException Timeout)) example_parser
          [''https://a.example/page'', ''https://b.example''] []) =
     Inr [(''https://a.example/page'', [(''https://x.example'', 200), (''https://y.example'', 0)]),
          (''https://b.example'', [])] \<and>
   distinct [''https://a.example/page'', ''https://b.example''] \<and>
   map fst [(''https://a.example/page'', [(''https://x.example'', 200::int), (''https://y.example'', 0)]),
            (''https://b.example'', [])] =
     [''https://a.example/page'', ''https://b.example'']"
proof -
  have run: "fst (extract_http_links (scenario_net (RequestException Timeout)) example_parser
          [''https://a.example/page'', ''https://b.example''] []) =
     Inr [(''https://a.example/page'', [(''https://x.example'', 200), (''https://y.example'', 0)]),
          (''https://b.example'', [])]"
    by (simp add: run_two_seeds)
  have d: "distinct [''https://a.example/page'', ''https://b.example'']" by simp
  from report_one_entry_per_distinct_seed
    [of "scenario_net (RequestException Timeout)" example_parser
       "[''https://a.example/page'', ''https://b.example'']" "[]"
       "[(''https://a.example/page'', [(''https://x.example'', 200), (''https://y.example'', 0)]),
         (''https://b.example'', [])]"] run d
  show ?thesis by blast
qed

section \<open>Status codes\<close>

text \<open>C3, counterexample: a link that answers 301 with a \<^verbatim>\<open>Location\<close> is recorded with the
  200 of the page it redirects to, and a link that redirects to itself is recorded with 0:
  \<^verbatim>\<open>requests.get\<close> follows redirects.\<close>

theorem redirect_status_counterexample:
  "net_moved [] (''https://x.example/old'', 10) =
     Inr \<lparr>status_code = 301, body_text = [], location = Some ''https://x.example/new''\<rparr> \<and>
   fst (get_link_status net_moved ''https://x.example/old'' []) =
     Inr (''https://x.example/old'', 200) \<and>
   fst (get_link_status net_redirect_loop ''https://x.example/loop'' []) =
     Inr (''https://x.example/loop'', 0)"
proof -
  have "fst (requests_get net_redirect_loop ''https://x.example/loop'' 10 []) =
      Inl (RequestException TooManyRedirects)"
    unfolding requests_get_def by (rule redirect_loop_raises)
  then have "fst (get_link_status net_redirect_loop ''https://x.example/loop'' []) =
      Inr (''https://x.example/loop'', 0)"
    by (auto simp add: get_link_status_def split: prod.splits)
  then show ?thesis
    by (simp add: moved) (simp add: net_moved_def)
qed

text \<open>C3, amended: the status code of the response that \<^verbatim>\<open>requests.get\<close> returns is
  recorded as it is, whatever its value. For a link whose own response is not a redirect
  that \<^verbatim>\<open>requests\<close> follows (it has no \<^verbatim>\<open>Location\<close>, or a status other than 301, 302,
  303, 307 and 308), that is the status code of the link's response, 4xx and 5xx included,
  after the one request.\<close>

theorem status_code_surfaced:
  "(fst (requests_get net link 10 log) = Inr response \<longrightarrow>
      fst (get_link_status net link log) = Inr (link, status_code response)) \<and>
   (net log (link, 10) = Inr response \<and> get_redirect_target response = None \<longrightarrow>
      get_link_status net link log = (Inr (link, status_code response), log @ [(link, 10)]))"
  by (auto simp add: get_link_status_def requests_get_final split: prod.splits)

theorem status_code_surfaced_witness:
  "net_not_found [] (''https://x.example/missing'', 10) = Inr (answer 404 ''Not Found'') \<and>
   get_redirect_target (answer 404 ''Not Found'') = None \<and>
   fst (requests_get net_not_found ''https://x.example/missing'' 10 []) =
     Inr (answer 404 ''Not Found'') \<and>
   get_link_status net_not_found ''https://x.example/missing'' [] =
     (Inr (''https://x.example/missing'', 404), [(''https://x.example/missing'', 10)])"
proof -
  have h1: "net_not_found [] (''https://x.example/missing'', 10) = Inr (answer 404 ''Not Found'')"
    by (simp add: net_not_found_def)
  have h2: "get_redirect_target (answer 404 ''Not Found'') = None"
    by (rule answer_no_redirect)
  have h3: "fst (requests_get net_not_found ''https://x.example/missing'' 10 []) =
     Inr (answer 404 ''Not Found'')"
    by (simp add: requests_get_unfold h1 h2)
  have h4: "status_code (answer 404 ''Not Found'') = 404" by (simp add: answer_def)
  from status_code_surfaced
    [of net_not_found "''https://x.example/missing''" "[]" "answer 404 ''Not Found''"]
    h1 h2 h3 h4
  show ?thesis by simp
qed




section \<open>The link extractor\<close>

text \<open>C5: the loop over the anchors returns, without an exception, exactly the \<^verbatim>\<open>href\<close>
  values of the anchors that start with \<^verbatim>\<open>http\<close>, in document order; when no anchor has
  such a value it returns the empty list.\<close>

theorem extractor_keeps_http_hrefs:
  "collect_links (find_all sp ''a'') [] =
     Inr (filter (\<lambda>href. startswith href ''http'') (anchor_hrefs sp)) \<and>
   ((\<forall>href\<in>set (anchor_hrefs sp). \<not> startswith href ''http'') \<longrightarrow>
      collect_links (find_all sp ''a'') [] = Inr [])"
proof -
  have "collect_links (find_all sp ''a'') [] =
     Inr (filter (\<lambda>href. startswith href ''http'') (anchor_hrefs sp))"
    by (simp add: collect_links_find_all http_links_def)
  moreover have "filter (\<lambda>href. startswith href ''http'') (anchor_hrefs sp) = []"
    if "\<forall>href\<in>set (anchor_hrefs sp). \<not> startswith href ''http''"
    using that by (simp add: filter_empty_conv)
  ultimately show ?thesis by simp
qed

lemma anchor_hrefs_other_soup:
  "anchor_hrefs other_soup =
     [''/relative'', ''mailto:a@b.example'', ''#top'', ''javascript:void(0)'']"
  by (simp add: anchor_hrefs_def other_soup_def anchor_def)

lemma anchor_hrefs_mixed_soup:
  "anchor_hrefs mixed_soup =
     [''https://x.example'', ''/relative'', ''mailto:a@b.example'', ''#top'',
      ''javascript:void(0)'', ''http://z.example'', ''https://x.example'']"
  by (simp add: anchor_hrefs_def mixed_soup_def anchor_def)

theorem extractor_keeps_http_hrefs_witness:
  "\<not> (\<exists>href\<in>set (anchor_hrefs other_soup). startswith href ''http'') \<and>
   collect_links (find_all other_soup ''a'') [] = Inr [] \<and>
   collect_links (find_all mixed_soup ''a'') [] =
     Inr [''https://x.example'', ''http://z.example'', ''https://x.example'']"
proof -
  have h: "\<forall>href\<in>set (anchor_hrefs other_soup). \<not> startswith href ''http''"
    by (simp add: anchor_hrefs_other_soup startswith_def)
  from extractor_keeps_http_hrefs [of other_soup] h
  have "collect_links (find_all other_soup ''a'') [] = Inr []" by blast
  moreover from extractor_keeps_http_hrefs [of mixed_soup]
  have "collect_links (find_all mixed_soup ''a'') [] =
     Inr [''https://x.example'', ''http://z.example'', ''https://x.example'']"
    by (simp add: anchor_hrefs_mixed_soup startswith_def)
  ultimately show ?thesis using h by blast
qed

section \<open>Order of the links of a page\<close>

text \<open>C6: every entry of the report that a run returns belongs to a request for its seed
  that the run issued, and its links are, one for one and in the same order, the \<^verbatim>\<open>href\<close>
  values starting with \<^verbatim>\<open>http\<close> of the anchors of the document that \<^verbatim>\<open>requests.get\<close>
  returned for that request (none when the request or the parser raised a
  \<^verbatim>\<open>RequestException\<close>): nothing is reordered and no repeated \<^verbatim>\<open>href\<close> is dropped.\<close>

theorem links_in_document_order:
  assumes "fst (extract_http_links net html_parser urls []) = Inr final"
    and "(url, status_links) \<in> set final"
  shows "\<exists>before after.
           snd (extract_http_links net html_parser urls []) = before @ (url, 10) # after \<and>
           map fst status_links =
             (case fst (requests_get net url 10 before) of
                Inl e \<Rightarrow> []
              | Inr response \<Rightarrow>
                  (case html_parser (body_text response) of
                     Inl e \<Rightarrow> []
                   | Inr sp \<Rightarrow> filter (\<lambda>href. startswith href ''http'') (anchor_hrefs sp)))"
proof -
  have "\<forall>(u, sl)\<in>set final.
      recorded net html_parser (snd (extract_http_links_loop net html_parser urls [] [])) u sl"
    using assms(1) unfolding extract_http_links_def
    by (intro loop_recorded) simp_all
  with assms(2) have
    "recorded net html_parser (snd (extract_http_links net html_parser urls [])) url status_links"
    unfolding extract_http_links_def by blast
  then show ?thesis
    unfolding recorded_def links_of_answer_def .
qed

theorem links_in_document_order_witness:
  "fst (extract_http_links net_repeated example_parser [''https://a.example/page''] []) =
     Inr [(''https://a.example/page'',
           [(''https://x.example'', 500), (''https://y.example'', 0), (''https://x.example'', 500)])] \<and>
   (\<exists>before after.
      snd (extract_http_links net_repeated example_parser [''https://a.example/page''] []) =
        before @ (''https://a.example/page'', 10) # after \<and>
      [''https://x.example'', ''https://y.example'', ''https://x.example''] =
        (case fst (requests_get net_repeated ''https://a.example/page'' 10 before) of
           Inl e \<Rightarrow> []
         | Inr response \<Rightarrow>
             (case example_parser (body_text response) of
                Inl e \<Rightarrow> []
              | Inr sp \<Rightarrow> filter (\<lambda>href. startswith href ''http'') (anchor_hrefs sp))))"
proof -
  let ?sl = "[(''https://x.example'', 500::int), (''https://y.example'', 0), (''https://x.example'', 500)]"
  let ?final = "[(''https://a.example/page'', ?sl)]"
  have run: "fst (extract_http_links net_repeated example_parser [''https://a.example/page''] []) =
     Inr ?final"
    by (simp add: run_net_repeated)
  have mem: "(''https://a.example/page'', ?sl) \<in> set ?final" by simp
  from links_in_document_order
    [of net_repeated example_parser "[''https://a.example/page'']" ?final
       "''https://a.example/page''" ?sl] run mem
  show ?thesis by simp
qed

section \<open>The example scenario\<close>

text \<open>C8, counterexample: in the scenario the failure of \<^verbatim>\<open>y.example\<close> is recorded as the
  integer 0, and the report is the same when the failure is a timeout instead of a
  connection error.\<close>

theorem scenario_counterexample:
  "fst (extract_http_links (scenario_net (RequestException ConnectionError)) example_parser
          [''https://a.example/page''] []) =
     Inr [(''https://a.example/page'', [(''https://x.example'', 200), (''https://y.example'', 0)])] \<and>
   fst (extract_http_links (scenario_net (RequestException ConnectionError)) example_parser
          [''https://a.example/page''] []) =
   fst (extract_http_links (scenario_net (RequestException Timeout)) example_parser
          [''https://a.example/page''] [])"
  by (simp add: run_scenario)

text \<open>C8, amended: for the seed list of the scenario, a page whose anchors are, in order,
  \<^verbatim>\<open>https://x.example\<close>, \<^verbatim>\<open>/relative\<close> and \<^verbatim>\<open>https://y.example\<close>, status 200 for
  \<^verbatim>\<open>x.example\<close> and a connection error for \<^verbatim>\<open>y.example\<close>, the report has the one entry of
  the seed with the two links \<^verbatim>\<open>(https://x.example, 200)\<close> and \<^verbatim>\<open>(https://y.example, 0)\<close>,
  in this order, and the requests sent are those of the three fetches.\<close>

theorem scenario_report:
  assumes "requests_get net ''https://a.example/page'' 10 [] = (Inr page, log1)"
    and "html_parser (body_text page) = Inr sp"
    and "anchor_hrefs sp = [''https://x.example'', ''/relative'', ''https://y.example'']"
    and "requests_get net ''https://x.example'' 10 log1 = (Inr rx, log2)"
    and "status_code rx = 200"
    and "requests_get net ''https://y.example'' 10 log2 =
           (Inl (RequestException ConnectionError), log3)"
  shows "extract_http_links net html_parser [''https://a.example/page''] [] =
     (Inr [(''https://a.example/page'', [(''https://x.example'', 200), (''https://y.example'', 0)])],
      log3)"
proof -
  have links: "http_links sp = [''https://x.example'', ''https://y.example'']"
    by (simp add: http_links_def assms(3) startswith_def)
  have "page_entry net html_parser ''https://a.example/page'' [] =
     (Inr [(''https://x.example'', 200), (''https://y.example'', 0)], log3)"
    by (simp add: page_entry_def assms(1,2) links get_link_status_def assms(4,5,6))
  then show ?thesis
    unfolding extract_http_links_def loop_step by simp
qed

theorem scenario_report_witness:
  "requests_get (scenario_net (RequestException ConnectionError)) ''https://a.example/page'' 10 [] =
     (Inr (answer 200 page_body), [(''https://a.example/page'', 10)]) \<and>
   example_parser page_body =
     Inr [anchor ''https://x.example'', anchor ''/relative'', anchor ''https://y.example''] \<and>
   anchor_hrefs [anchor ''https://x.example'', anchor ''/relative'', anchor ''https://y.example''] =
     [''https://x.example'', ''/relative'', ''https://y.example''] \<and>
   requests_get (scenario_net (RequestException ConnectionError)) ''https://x.example'' 10
     [(''https://a.example/page'', 10)] =
     (Inr (answer 200 []), [(''https://a.example/page'', 10), (''https://x.example'', 10)]) \<and>
   requests_get (scenario_net (RequestException ConnectionError)) ''https://y.example'' 10
     [(''https://a.example/page'', 10), (''https://x.example'', 10)] =
     (Inl (RequestException ConnectionError),
      [(''https://a.example/page'', 10), (''https://x.example'', 10), (''https://y.example'', 10)]) \<and>
   extract_http_links (scenario_net (RequestException ConnectionError)) example_parser
     [''https://a.example/page''] [] =
     (Inr [(''https://a.example/page'', [(''https://x.example'', 200), (''https://y.example'', 0)])],
      [(''https://a.example/page'', 10), (''https://x.example'', 10), (''https://y.example'', 10)])"
proof -
  let ?net = "scenario_net (RequestException ConnectionError)"
  let ?sp = "[anchor ''https://x.example'', anchor ''/relative'', anchor ''https://y.example'']"
  have h1: "requests_get ?net ''https://a.example/page'' 10 [] =
     (Inr (answer 200 page_body), [(''https://a.example/page'', 10)])"
    by (simp add: requests_get_unfold scenario_net_def answer_no_redirect)
  have h2: "example_parser (body_text (answer 200 page_body)) = Inr ?sp"
    by (simp add: example_parser_def answer_def)
  have h3: "anchor_hrefs ?sp = [''https://x.example'', ''/relative'', ''https://y.example'']"
    by (simp add: anchor_hrefs_def anchor_def)
  have h4: "requests_get ?net ''https://x.example'' 10 [(''https://a.example/page'', 10)] =
     (Inr (answer 200 []), [(''https://a.example/page'', 10), (''https://x.example'', 10)])"
    by (simp add: requests_get_unfold scenario_net_def answer_no_redirect)
  have h5: "status_code (answer 200 []) = 200" by (simp add: answer_def)
  have h6: "requests_get ?net ''https://y.example'' 10
     [(''https://a.example/page'', 10), (''https://x.example'', 10)] =
     (Inl (RequestException ConnectionError),
      [(''https://a.example/page'', 10), (''https://x.example'', 10), (''https://y.example'', 10)])"
    by (simp add: requests_get_unfold scenario_net_def)
  have h2': "example_parser page_body = Inr ?sp"
    using h2 by (simp add: answer_def)
  from scenario_report
    [of ?net "answer 200 page_body" "[(''https://a.example/page'', 10)]" example_parser ?sp
       "answer 200 []" "[(''https://a.example/page'', 10), (''https://x.example'', 10)]"
       "[(''https://a.example/page'', 10), (''https://x.example'', 10), (''https://y.example'', 10)]"]
    h1 h2 h3 h4 h5 h6 h2'
  show ?thesis by simp
qed

section \<open>Failed seeds\<close>







section \<open>The rendered report\<close>

text \<open>C10: for a seed whose page fetch failed and for a seed whose page was fetched and has
  no link starting with \<^verbatim>\<open>http\<close>, \<^const>\<open>save_links_to_markdown\<close> writes the same file:
  the header and the placeholder row of the seed. Whatever else a report holds, the rows
  of a seed whose entry is the empty list are the placeholder row.\<close>

theorem placeholder_row_for_failed_and_empty_page:
  assumes "fst (requests_get net1 url 10 log) = Inl (RequestException e)"
    and "fst (requests_get net2 url 10 log) = Inr response"
    and "html_parser (body_text response) = Inr sp"
    and "filter (\<lambda>href. startswith href ''http'') (anchor_hrefs sp) = []"
  shows "save_links_to_markdown net1 html_parser [url] filename files log =
           (Inr (files(filename \<mapsto> header @ placeholder_row url)),
            snd (requests_get net1 url 10 log)) \<and>
         save_links_to_markdown net2 html_parser [url] filename files log =
           (Inr (files(filename \<mapsto> header @ placeholder_row url)),
            snd (requests_get net2 url 10 log)) \<and>
         seed_rows (AList.update url [] result) url = placeholder_row url"
proof -
  have e1: "page_entry net1 html_parser url log = (Inr [], snd (requests_get net1 url 10 log))"
    using assms(1) by (cases "requests_get net1 url 10 log") (simp add: page_entry_def)
  have e2: "page_entry net2 html_parser url log = (Inr [], snd (requests_get net2 url 10 log))"
    using assms(2,3,4)
    by (cases "requests_get net2 url 10 log") (simp add: page_entry_def http_links_def)
  have "extract_http_links net1 html_parser [url] log =
      (Inr [(url, [])], snd (requests_get net1 url 10 log))"
    unfolding extract_http_links_def loop_step by (simp add: e1)
  moreover have "extract_http_links net2 html_parser [url] log =
      (Inr [(url, [])], snd (requests_get net2 url 10 log))"
    unfolding extract_http_links_def loop_step by (simp add: e2)
  moreover have "seed_rows (AList.update url [] result) url = placeholder_row url"
    by (simp add: seed_rows_def update_conv')
  ultimately show ?thesis
    by (simp add: save_links_to_markdown_def seed_rows_def)
qed

theorem placeholder_row_for_failed_and_empty_page_witness:
  "fst (requests_get net_timeout ''https://a.example/page'' 10 []) =
     Inl (RequestException Timeout) \<and>
   fst (requests_get net_no_links ''https://a.example/page'' 10 []) =
     Inr (answer 200 relative_body) \<and>
   example_parser relative_body =
     Inr [\<lparr>tag_name = ''p'', attrs = Map.empty\<rparr>, anchor ''/relative'',
          \<lparr>tag_name = ''a'', attrs = [''name'' \<mapsto> ''top'']\<rparr>] \<and>
   filter (\<lambda>href. startswith href ''http'')
     (anchor_hrefs [\<lparr>tag_name = ''p'', attrs = Map.empty\<rparr>, anchor ''/relative'',
          \<lparr>tag_name = ''a'', attrs = [''name'' \<mapsto> ''top'']\<rparr>]) = [] \<and>
   save_links_to_markdown net_timeout example_parser [''https://a.example/page''] ''links.md''
     Map.empty [] =
   save_links_to_markdown net_no_links example_parser [''https://a.example/page''] ''links.md''
     Map.empty [] \<and>
   fst (save_links_to_markdown net_no_links example_parser [''https://a.example/page'']
     ''links.md'' Map.empty []) =
     Inr [''links.md'' \<mapsto>
       header @ ''| https://a.example/page | No links found or URL unreachable | - |'' @ newline]"
proof -
  let ?sp = "[\<lparr>tag_name = ''p'', attrs = Map.empty\<rparr>, anchor ''/relative'',
          \<lparr>tag_name = ''a'', attrs = [''name'' \<mapsto> ''top'']\<rparr>]"
  have h1: "requests_get net_timeout ''https://a.example/page'' 10 [] =
      (Inl (RequestException Timeout), [(''https://a.example/page'', 10)])"
    by (simp add: requests_get_unfold net_timeout_def)
  have h2: "requests_get net_no_links ''https://a.example/page'' 10 [] =
      (Inr (answer 200 relative_body), [(''https://a.example/page'', 10)])"
    by (simp add: requests_get_unfold net_no_links_def answer_no_redirect)
  have h3: "example_parser relative_body = Inr ?sp"
    by (simp add: example_parser_def relative_body_def page_body_def repeated_body_def)
  have h3': "example_parser (body_text (answer 200 relative_body)) = Inr ?sp"
    using h3 by (simp add: answer_def)
  have h4: "filter (\<lambda>href. startswith href ''http'') (anchor_hrefs ?sp) = []"
    by (simp add: anchor_hrefs_def anchor_def startswith_def)
  from placeholder_row_for_failed_and_empty_page
    [of net_timeout "''https://a.example/page''" "[]" Timeout net_no_links
       "answer 200 relative_body" example_parser ?sp "''links.md''" Map.empty "[]"]
    h1 h2 h3 h3' h4
  show ?thesis by (simp add: placeholder_row_def)
qed

end
